theory Spec2Isabelle
  imports Complex_Main
begin

section \<open>The SVG parser of svg\_to\_pptx\<close>

text \<open>
  A shallow embedding of \<^verbatim>\<open>src/svg_to_pptx/parser.py\<close> and of the data classes of
  \<^verbatim>\<open>src/svg_to_pptx/models.py\<close>.

  Conventions of the model:
  \<^item> a Python \<^verbatim>\<open>str\<close> is a \<open>string\<close>; the inputs are ASCII text, so \<^verbatim>\<open>\d\<close> is
    \<open>0\<close>..\<open>9\<close>, \<^verbatim>\<open>[a-z]\<close> under \<^verbatim>\<open>re.IGNORECASE\<close> is the 52 ASCII letters,
    and \<^verbatim>\<open>str.lower\<close> and \<^verbatim>\<open>str.strip\<close> act on ASCII letters and ASCII white space;
  \<^item> \<^verbatim>\<open>Optional[str]\<close> is \<open>string option\<close>;
  \<^item> a Python \<^verbatim>\<open>float\<close> is a \<open>real\<close>: arithmetic is exact, rounding and the
    non-finite values are not modelled;
  \<^item> the built-in \<^verbatim>\<open>float(str)\<close> is a parameter \<open>py_float\<close> of every function
    that reaches it: \<open>py_float s = None\<close> stands for \<^verbatim>\<open>ValueError\<close>. Where the source
    calls \<^verbatim>\<open>float\<close> on the \<^verbatim>\<open>value\<close> group of a successful match of the length
    pattern, the argument is a plain decimal literal and the model computes its value
    (\<open>float_of_literal\<close>);
  \<^item> an exception is a value \<open>Inl e\<close> of a sum type.
\<close>

subsection \<open>Strings\<close>

definition is_digit :: "char \<Rightarrow> bool" where
  "is_digit c = (c \<in> set ''0123456789'')"

definition ascii_uppercase :: string where
  "ascii_uppercase = ''ABCDEFGHIJKLMNOPQRSTUVWXYZ''"

definition ascii_lowercase :: string where
  "ascii_lowercase = ''abcdefghijklmnopqrstuvwxyz''"

definition is_letter :: "char \<Rightarrow> bool" where
  "is_letter c = (c \<in> set ascii_uppercase \<or> c \<in> set ascii_lowercase)"

text \<open>\<^verbatim>\<open>str.isspace\<close> on ASCII: tab, line feed, vertical tab, form feed, carriage return,
  the four separators 0x1C..0x1F and the space.\<close>

definition is_space :: "char \<Rightarrow> bool" where
  "is_space c = (c \<in> {CHR 0x09, CHR 0x0A, CHR 0x0B, CHR 0x0C, CHR 0x0D,
                        CHR 0x1C, CHR 0x1D, CHR 0x1E, CHR 0x1F, CHR 0x20})"

text \<open>\<^verbatim>\<open>s.strip()\<close>\<close>

definition strip :: "string \<Rightarrow> string" where
  "strip s = rev (dropWhile is_space (rev (dropWhile is_space s)))"

definition lower_char :: "char \<Rightarrow> char" where
  "lower_char c = (case map_of (zip ascii_uppercase ascii_lowercase) c of
                     Some l \<Rightarrow> l | None \<Rightarrow> c)"

text \<open>\<^verbatim>\<open>s.lower()\<close>\<close>

definition lower :: "string \<Rightarrow> string" where
  "lower s = map lower_char s"

text \<open>\<^verbatim>\<open>s.startswith(p)\<close>\<close>

definition startswith :: "string \<Rightarrow> string \<Rightarrow> bool" where
  "startswith s p = (take (length p) s = p)"

text \<open>\<^verbatim>\<open>s.split(c)\<close> for a one-character separator: never the empty list.\<close>

fun split_on :: "char \<Rightarrow> string \<Rightarrow> string list" where
  "split_on c [] = [[]]"
| "split_on c (x # xs) =
     (if x = c then [] # split_on c xs
      else (case split_on c xs of
              [] \<Rightarrow> [[x]]
            | h # t \<Rightarrow> (x # h) # t))"

text \<open>\<^verbatim>\<open>key, value = s.split(c, 1)\<close> for a string \<open>s\<close> that contains \<open>c\<close>.\<close>

definition split_first :: "char \<Rightarrow> string \<Rightarrow> string \<times> string" where
  "split_first c s = (takeWhile (\<lambda>x. x \<noteq> c) s, drop 1 (dropWhile (\<lambda>x. x \<noteq> c) s))"

text \<open>\<^verbatim>\<open>int(v)\<close> for a string of decimal digits.\<close>

definition digit_val :: "char \<Rightarrow> nat" where
  "digit_val c = of_char c - 48"

definition nat_of_digits :: "string \<Rightarrow> nat" where
  "nat_of_digits ds = foldl (\<lambda>n c. 10 * n + digit_val c) 0 ds"

text \<open>\<^verbatim>\<open>f"{n:02x}"\<close>: lowercase hexadecimal, padded with zeros to two characters and
  longer when \<open>n\<close> exceeds 255.\<close>

definition hex_digit :: "nat \<Rightarrow> char" where
  "hex_digit n = ''0123456789abcdef'' ! n"

fun hex :: "nat \<Rightarrow> string" where
  "hex n = (if n < 16 then [hex_digit n] else hex (n div 16) @ [hex_digit (n mod 16)])"

definition hex02 :: "nat \<Rightarrow> string" where
  "hex02 n = replicate (2 - length (hex n)) (CHR ''0'') @ hex n"

subsection \<open>Regular expressions of the parser\<close>

text \<open>
  The number pattern \<^verbatim>\<open>-?\d+(?:\.\d+)?\<close> matched at the head of a string: the match and
  the rest of the string. The pattern is greedy and nothing follows it, so the match is
  the longest one: all the digits, and the fraction when a digit follows the dot.
\<close>

definition literal_match :: "string \<Rightarrow> (string \<times> string) option" where
  "literal_match s =
     (let (sgn, s1) = (case s of
                         [] \<Rightarrow> ([], s)
                       | c # cs \<Rightarrow> if c = CHR ''-'' then ([c], cs) else ([], s));
          ip = takeWhile is_digit s1;
          r1 = dropWhile is_digit s1
      in if ip = [] then None
         else (case r1 of
                 [] \<Rightarrow> Some (sgn @ ip, [])
               | c # cs \<Rightarrow>
                   if c = CHR ''.'' \<and> takeWhile is_digit cs \<noteq> []
                   then Some (sgn @ ip @ [c] @ takeWhile is_digit cs, dropWhile is_digit cs)
                   else Some (sgn @ ip, r1)))"

text \<open>
  \<^verbatim>\<open>_LENGTH_RE.fullmatch(value)\<close> with
  \<^verbatim>\<open>_LENGTH_RE = (?P<value>-?\d+(?:\.\d+)?)(?P<unit>[a-z%]*)\<close>, ignoring case:
  the groups \<open>value\<close> and \<open>unit\<close>. No shorter number can be followed by a unit
  character (the next character would be a digit or a dot), so the split is the one of
  \<open>literal_match\<close>.
\<close>

definition is_unit_char :: "char \<Rightarrow> bool" where
  "is_unit_char c = (is_letter c \<or> c = CHR ''%'')"

definition length_fullmatch :: "string \<Rightarrow> (string \<times> string) option" where
  "length_fullmatch s =
     (case literal_match s of
        None \<Rightarrow> None
      | Some (v, u) \<Rightarrow> if list_all is_unit_char u then Some (v, u) else None)"

text \<open>\<^verbatim>\<open>float(match.group("value"))\<close>: the value of a decimal literal
  \<^verbatim>\<open>-?\d+(?:\.\d+)?\<close>.\<close>

definition float_of_literal :: "string \<Rightarrow> real" where
  "float_of_literal s =
     (let neg = (take 1 s = ''-'');
          body = (if neg then drop 1 s else s);
          ip = takeWhile is_digit body;
          fp = drop 1 (dropWhile is_digit body);
          m = real (nat_of_digits ip) + real (nat_of_digits fp) / 10 ^ length fp
      in if neg then - m else m)"

text \<open>\<^verbatim>\<open>re.findall(r"\d+", s)\<close>: the maximal runs of digits, left to right.\<close>

fun digit_runs :: "string \<Rightarrow> string \<Rightarrow> string list" where
  "digit_runs cur [] = (if cur = [] then [] else [cur])"
| "digit_runs cur (c # cs) =
     (if is_digit c then digit_runs (cur @ [c]) cs
      else (if cur = [] then [] else [cur]) @ digit_runs [] cs)"

definition findall_digits :: "string \<Rightarrow> string list" where
  "findall_digits s = digit_runs [] s"

subsection \<open>Unit and value normaliser\<close>

text \<open>\<^verbatim>\<open>_parse_float(value, default)\<close>; \<open>dflt\<close> is the source's \<^verbatim>\<open>default\<close>, which defaults to \<open>0.0\<close>.\<close>

definition parse_float :: "(string \<Rightarrow> real option) \<Rightarrow> string option \<Rightarrow> real \<Rightarrow> real" where
  "parse_float py_float value dflt =
     (case value of
        None \<Rightarrow> dflt
      | Some v0 \<Rightarrow>
          (let v = strip v0 in
           if v = [] then dflt
           else (case length_fullmatch v of
                   None \<Rightarrow> (case py_float v of Some r \<Rightarrow> r | None \<Rightarrow> dflt)
                 | Some (num, u) \<Rightarrow>
                     (let number = float_of_literal num;
                          unit = lower u
                      in if unit \<in> {'''', ''px''} then number
                         else if unit = ''pt'' then number * 1.3333
                         else if unit = ''cm'' then number * 37.7953
                         else if unit = ''mm'' then number * 3.77953
                         else if unit = ''in'' then number * 96.0
                         else if unit = ''%'' then number
                         else number))))"

definition COLOR_NAMES :: "(string \<times> string) list" where
  "COLOR_NAMES =
     [(''black'', ''#000000''),
      (''white'', ''#ffffff''),
      (''red'', ''#ff0000''),
      (''green'', ''#008000''),
      (''blue'', ''#0000ff''),
      (''yellow'', ''#ffff00''),
      (''cyan'', ''#00ffff''),
      (''magenta'', ''#ff00ff''),
      (''none'', ''none'')]"

text \<open>\<^verbatim>\<open>_parse_color(value)\<close>\<close>

definition parse_color :: "string option \<Rightarrow> string option" where
  "parse_color value =
     (case value of
        None \<Rightarrow> None
      | Some v0 \<Rightarrow>
          (let v = strip v0 in
           if v = [] then None
           else (let normalized = (case map_of COLOR_NAMES (lower v) of
                                     Some n \<Rightarrow> n | None \<Rightarrow> v)
                 in if lower normalized = ''none'' then None
                    else if startswith normalized ''#'' \<and> length normalized = 7
                         then Some (lower normalized)
                    else if startswith normalized ''rgb''
                            \<and> length (findall_digits normalized) = 3
                         then Some (''#'' @ concat (map (\<lambda>v. hex02 (nat_of_digits v))
                                                       (findall_digits normalized)))
                    else Some normalized)))"

subsection \<open>Data model\<close>

text \<open>The data classes of \<^verbatim>\<open>models.py\<close>. Every shape carries its discriminator and its
  style, as the classes do.\<close>

datatype ShapeType = RECT | CIRCLE | ELLIPSE | LINE | POLYLINE | POLYGON | PATH | TEXT

text \<open>The values of the enumeration (\<^verbatim>\<open>RECT = "rect"\<close>, ...): the tag names.\<close>

definition ShapeType_value :: "ShapeType \<Rightarrow> string" where
  "ShapeType_value t =
     (case t of RECT \<Rightarrow> ''rect'' | CIRCLE \<Rightarrow> ''circle'' | ELLIPSE \<Rightarrow> ''ellipse''
      | LINE \<Rightarrow> ''line'' | POLYLINE \<Rightarrow> ''polyline'' | POLYGON \<Rightarrow> ''polygon''
      | PATH \<Rightarrow> ''path'' | TEXT \<Rightarrow> ''text'')"

record Style =
  fill_color :: "string option"
  stroke_color :: "string option"
  stroke_width :: real
  opacity :: real

record TextStyle = Style +
  font_family :: "string option"
  font_size :: "real option"

record PathSegment =
  points :: "(real \<times> real) list"
  closed :: bool

datatype Shape =
    Rect ShapeType Style real real real real real real
  | Circle ShapeType Style real real real
  | Ellipse ShapeType Style real real real real
  | Line ShapeType Style real real real real
  | Polyline ShapeType Style "(real \<times> real) list" bool
  | Path ShapeType Style "PathSegment list"
  | Text ShapeType TextStyle string real real

fun shape_type :: "Shape \<Rightarrow> ShapeType" where
  "shape_type (Rect t _ _ _ _ _ _ _) = t"
| "shape_type (Circle t _ _ _ _) = t"
| "shape_type (Ellipse t _ _ _ _ _) = t"
| "shape_type (Line t _ _ _ _ _) = t"
| "shape_type (Polyline t _ _ _) = t"
| "shape_type (Path t _ _) = t"
| "shape_type (Text t _ _ _ _) = t"

record Document =
  width :: "real option"
  height :: "real option"
  shapes :: "Shape list"

text \<open>\<^verbatim>\<open>TextStyle()\<close>: the defaults of the data class.\<close>

definition TextStyle_default :: TextStyle where
  "TextStyle_default =
     \<lparr>fill_color = None, stroke_color = None, stroke_width = 1.0, opacity = 1.0,
      font_family = None, font_size = None\<rparr>"

text \<open>An element of the parsed XML tree (\<^verbatim>\<open>xml.etree.ElementTree.Element\<close>): its tag,
  its attribute dictionary, the text before its first child, the text after its end tag,
  and its children in document order.\<close>

datatype Element =
  Element (tag: string) (attrib: "string \<rightharpoonup> string")
          (el_text: "string option") (el_tail: "string option") (children: "Element list")

text \<open>The exceptions of the parser: the \<^verbatim>\<open>ValueError\<close> of \<^verbatim>\<open>float(s)\<close>, the
  \<^verbatim>\<open>ValueError("Path data missing command")\<close> of the path interpreter, and the
  \<^verbatim>\<open>ValueError(f"Unable to parse element '{tag}': {exc}")\<close> of the tree walk, which
  wraps the exception it caught.\<close>

datatype error =
    FloatError string
  | MissingCommand
  | UnableToParse string error

subsection \<open>Style resolver\<close>

text \<open>\<^verbatim>\<open>element.get(key, default)\<close>\<close>

definition element_get :: "Element \<Rightarrow> string \<Rightarrow> string option \<Rightarrow> string option" where
  "element_get element key dflt =
     (case attrib element key of Some v \<Rightarrow> Some v | None \<Rightarrow> dflt)"

text \<open>\<^verbatim>\<open>_merge_style(element)\<close>: the dictionary of the \<^verbatim>\<open>style\<close> attribute; a later
  declaration of a key replaces an earlier one.\<close>

definition merge_style :: "Element \<Rightarrow> (string \<rightharpoonup> string)" where
  "merge_style element =
     (case attrib element ''style'' of
        None \<Rightarrow> Map.empty
      | Some s \<Rightarrow>
          foldl (\<lambda>style decl.
                   if CHR '':'' \<in> set decl
                   then (let (key, value) = split_first (CHR '':'') decl
                         in style(strip key \<mapsto> strip value))
                   else style)
                Map.empty (split_on (CHR '';'') s))"

text \<open>\<^verbatim>\<open>_extract_style(element, base_style)\<close>. The opacity is converted by the built-in
  \<^verbatim>\<open>float\<close>, whose \<^verbatim>\<open>ValueError\<close> is not caught here.\<close>

definition extract_style ::
  "(string \<Rightarrow> real option) \<Rightarrow> Element \<Rightarrow> 'a Style_scheme option \<Rightarrow> error + Style" where
  "extract_style py_float element base_style =
     (let inline = merge_style element;
          fill = element_get element ''fill'' (inline ''fill'');
          stroke = element_get element ''stroke'' (inline ''stroke'');
          stroke_width_s = element_get element ''stroke-width'' (inline ''stroke-width'');
          opacity_s = element_get element ''opacity'' (inline ''opacity'')
      in case (case opacity_s of
                 Some s \<Rightarrow> (case py_float s of
                              Some r \<Rightarrow> Inr r
                            | None \<Rightarrow> Inl (FloatError s))
               | None \<Rightarrow> Inr (case base_style of
                                 Some b \<Rightarrow> opacity b
                               | None \<Rightarrow> 1.0)) of
           Inl e \<Rightarrow> Inl e
         | Inr opacity_v \<Rightarrow>
             Inr \<lparr>fill_color = parse_color fill,
                  stroke_color = parse_color stroke,
                  stroke_width = parse_float py_float stroke_width_s
                                   (case base_style of
                                      Some b \<Rightarrow> stroke_width b
                                    | None \<Rightarrow> 1.0),
                  opacity = opacity_v\<rparr>)"

text \<open>\<^verbatim>\<open>_extract_text_style(element)\<close>; \<^verbatim>\<open>if font_size\<close> holds for a string that is
  neither absent nor empty.\<close>

definition extract_text_style ::
  "(string \<Rightarrow> real option) \<Rightarrow> Element \<Rightarrow> error + TextStyle" where
  "extract_text_style py_float element =
     (let inline = merge_style element;
          font_family_s = element_get element ''font-family'' (inline ''font-family'');
          font_size_s = element_get element ''font-size'' (inline ''font-size'')
      in case extract_style py_float element (Some TextStyle_default) of
           Inl e \<Rightarrow> Inl e
         | Inr base_style \<Rightarrow>
             Inr \<lparr>fill_color = fill_color base_style,
                  stroke_color = stroke_color base_style,
                  stroke_width = stroke_width base_style,
                  opacity = opacity base_style,
                  font_family = font_family_s,
                  font_size = (if font_size_s \<noteq> None \<and> font_size_s \<noteq> Some []
                               then Some (parse_float py_float font_size_s 0.0)
                               else None)\<rparr>)"

subsection \<open>Scanning with a pattern\<close>

text \<open>
  \<^verbatim>\<open>re.findall\<close> and \<^verbatim>\<open>re.finditer\<close>: the matches of a pattern from left to right.
  \<open>m s\<close> is the match of the pattern at the head of \<open>s\<close> with the rest of \<open>s\<close>, or
  \<open>None\<close>. After a match the scan goes on behind it, and one character further where
  there is none. The patterns of this parser match no empty string.
\<close>

fun re_findall :: "(string \<Rightarrow> (string \<times> string) option) \<Rightarrow> string \<Rightarrow> string list" where
  "re_findall m [] = []"
| "re_findall m (c # cs) =
     (case m (c # cs) of
        Some (tok, _) \<Rightarrow> tok # re_findall m (drop (max 1 (length tok)) (c # cs))
      | None \<Rightarrow> re_findall m cs)"

text \<open>
  The pair pattern \<^verbatim>\<open>-?\d+(?:\.\d+)?,-?\d+(?:\.\d+)?\<close> of \<^verbatim>\<open>_parse_points\<close> at the
  head of a string. A shorter first number is followed by a digit or a dot, never by the
  comma, so the first number is the longest one.
\<close>

definition pair_match :: "string \<Rightarrow> (string \<times> string) option" where
  "pair_match s =
     (case literal_match s of
        None \<Rightarrow> None
      | Some (x, r) \<Rightarrow>
          (case r of
             [] \<Rightarrow> None
           | c # r' \<Rightarrow>
               if c = CHR '','' then
                 (case literal_match r' of
                    None \<Rightarrow> None
                  | Some (y, r'') \<Rightarrow> Some (x @ [c] @ y, r''))
               else None))"

text \<open>
  The number alternative \<^verbatim>\<open>-?\d*\.?\d+\<close> of the path tokenizer at the head of a string:
  the digits, the dot and the digits behind it when a digit follows the dot; the digits
  alone otherwise, of which there must be one.
\<close>

definition number_token_match :: "string \<Rightarrow> (string \<times> string) option" where
  "number_token_match s =
     (let (sgn, s1) = (case s of
                         [] \<Rightarrow> ([], s)
                       | c # cs \<Rightarrow> if c = CHR ''-'' then ([c], cs) else ([], s));
          ip = takeWhile is_digit s1;
          r1 = dropWhile is_digit s1
      in case r1 of
           [] \<Rightarrow> if ip = [] then None else Some (sgn @ ip, [])
         | c # cs \<Rightarrow>
             if c = CHR ''.'' \<and> takeWhile is_digit cs \<noteq> []
             then Some (sgn @ ip @ [c] @ takeWhile is_digit cs, dropWhile is_digit cs)
             else if ip = [] then None
             else Some (sgn @ ip, r1))"

text \<open>The pattern \<^verbatim>\<open>([MmLlHhVvZz])|(-?\d*\.?\d+)\<close> of \<^verbatim>\<open>_path_tokens\<close>.\<close>

definition path_token_match :: "string \<Rightarrow> (string \<times> string) option" where
  "path_token_match s =
     (case s of
        [] \<Rightarrow> None
      | c # cs \<Rightarrow> if c \<in> set ''MmLlHhVvZz'' then Some ([c], cs) else number_token_match s)"

text \<open>\<^verbatim>\<open>list(_path_tokens(path_data))\<close>\<close>

definition path_tokens :: "string \<Rightarrow> string list" where
  "path_tokens path_data = re_findall path_token_match path_data"

subsection \<open>Points of a polyline\<close>

text \<open>The pairs \<^verbatim>\<open>(numbers[0], numbers[1]), (numbers[2], numbers[3]), ...\<close>; the loop
  of the source stops at the \<^verbatim>\<open>IndexError\<close> of a last number without a partner.\<close>

fun pair_up :: "'a list \<Rightarrow> ('a \<times> 'a) list" where
  "pair_up (a # b # rest) = (a, b) # pair_up rest"
| "pair_up _ = []"

text \<open>\<^verbatim>\<open>_parse_points(points_str)\<close>\<close>

definition parse_points :: "(string \<Rightarrow> real option) \<Rightarrow> string \<Rightarrow> (real \<times> real) list" where
  "parse_points py_float points_str =
     (let points = map (\<lambda>pair. (let (x_str, y_str) = split_first (CHR '','') pair
                                  in (parse_float py_float (Some x_str) 0.0,
                                      parse_float py_float (Some y_str) 0.0)))
                       (re_findall pair_match (strip points_str))
      in if points = []
         then pair_up (map (\<lambda>n. parse_float py_float (Some n) 0.0)
                           (re_findall literal_match points_str))
         else points)"

subsection \<open>Path interpreter\<close>

text \<open>The local variables of \<^verbatim>\<open>_parse_path\<close>; \<open>tok_i\<close> is the index \<^verbatim>\<open>i\<close> into the
  token list.\<close>

record PathState =
  segments :: "PathSegment list"
  cursor :: "real \<times> real"
  start_point :: "(real \<times> real) option"
  tok_i :: nat
  command :: "string option"

text \<open>\<^verbatim>\<open>re.fullmatch(r"[A-Za-z]", token)\<close>\<close>

definition is_command_token :: "string \<Rightarrow> bool" where
  "is_command_token token = (case token of [c] \<Rightarrow> is_letter c | _ \<Rightarrow> False)"

text \<open>\<^verbatim>\<open>segments[-1].points.append(point)\<close> and \<^verbatim>\<open>segments[-1].closed = True\<close>, for a
  list that is not empty.\<close>

definition append_point :: "PathSegment list \<Rightarrow> real \<times> real \<Rightarrow> PathSegment list" where
  "append_point segs point = butlast segs @ [(last segs)\<lparr>points := points (last segs) @ [point]\<rparr>]"

definition close_last :: "PathSegment list \<Rightarrow> PathSegment list" where
  "close_last segs = butlast segs @ [(last segs)\<lparr>closed := True\<rparr>]"

text \<open>The end of the loop body (\<^verbatim>\<open>if command in {"M", "m"}: ... cursor = point\<close>).\<close>

definition path_emit :: "PathState \<Rightarrow> string \<Rightarrow> real \<times> real \<Rightarrow> PathState" where
  "path_emit st cmd point =
     (if cmd \<in> {''M'', ''m''}
      then st\<lparr>segments := segments st @ [\<lparr>points = [point], closed = False\<rparr>],
              start_point := Some point,
              command := Some (if cmd = ''M'' then ''L'' else ''l''),
              cursor := point\<rparr>
      else st\<lparr>segments := (if segments st = []
                            then [\<lparr>points = [cursor st, point], closed = False\<rparr>]
                            else append_point (segments st) point),
              cursor := point\<rparr>)"

text \<open>The branch of \<^verbatim>\<open>Z\<close> and \<^verbatim>\<open>z\<close>
  (\<^verbatim>\<open>if segments and start_point is not None: segments[-1].closed = True\<close>, then
  \<^verbatim>\<open>cursor = start_point if start_point else cursor\<close> and
  \<^verbatim>\<open>command = None\<close>); a point is a pair, which Python takes for true.\<close>

definition path_close :: "PathState \<Rightarrow> PathState" where
  "path_close st =
     st\<lparr>segments := (if segments st \<noteq> [] \<and> start_point st \<noteq> None
                       then close_last (segments st)
                       else segments st),
        cursor := (case start_point st of
                     Some p \<Rightarrow> p
                   | None \<Rightarrow> cursor st),
        command := None\<rparr>"

text \<open>One pass through the body of the \<^verbatim>\<open>while\<close> loop, for \<open>tok_i st < length tokens\<close>.\<close>

definition path_step ::
  "(string \<Rightarrow> real option) \<Rightarrow> string list \<Rightarrow> PathState \<Rightarrow> error + PathState" where
  "path_step py_float tokens st =
     (let i = tok_i st;
          token = tokens ! i
      in if is_command_token token
         then Inr (st\<lparr>command := Some token, tok_i := i + 1\<rparr>)
         else (case command st of
                 None \<Rightarrow> Inl MissingCommand
               | Some cmd \<Rightarrow>
                   if cmd \<in> {''M'', ''L''} then
                     Inr (path_emit (st\<lparr>tok_i := i + 2\<rparr>) cmd
                            (parse_float py_float (Some token) 0.0,
                             if i + 1 < length tokens
                             then parse_float py_float (Some (tokens ! (i + 1))) 0.0
                             else 0.0))
                   else if cmd \<in> {''m'', ''l''} then
                     Inr (path_emit (st\<lparr>tok_i := i + 2\<rparr>) cmd
                            (fst (cursor st) + parse_float py_float (Some token) 0.0,
                             if i + 1 < length tokens
                             then snd (cursor st)
                                  + parse_float py_float (Some (tokens ! (i + 1))) 0.0
                             else snd (cursor st)))
                   else if cmd = ''H'' then
                     Inr (path_emit (st\<lparr>tok_i := i + 1\<rparr>) cmd
                            (parse_float py_float (Some token) 0.0, snd (cursor st)))
                   else if cmd = ''h'' then
                     Inr (path_emit (st\<lparr>tok_i := i + 1\<rparr>) cmd
                            (fst (cursor st) + parse_float py_float (Some token) 0.0,
                             snd (cursor st)))
                   else if cmd = ''V'' then
                     Inr (path_emit (st\<lparr>tok_i := i + 1\<rparr>) cmd
                            (fst (cursor st), parse_float py_float (Some token) 0.0))
                   else if cmd = ''v'' then
                     Inr (path_emit (st\<lparr>tok_i := i + 1\<rparr>) cmd
                            (fst (cursor st),
                             snd (cursor st) + parse_float py_float (Some token) 0.0))
                   else if cmd \<in> {''Z'', ''z''} then
                     Inr (path_close (st\<lparr>tok_i := i + 1\<rparr>))
                   else Inr (st\<lparr>tok_i := i + 1\<rparr>)))"

text \<open>Every pass moves the index forward, so the loop ends.\<close>

lemma tok_i_path_emit: "tok_i (path_emit st cmd point) = tok_i st"
  by (simp add: path_emit_def)

lemma tok_i_path_close: "tok_i (path_close st) = tok_i st"
  by (simp add: path_close_def)

lemma path_step_advances_case:
  "(case path_step py_float tokens st of Inl _ \<Rightarrow> True | Inr st' \<Rightarrow> tok_i st < tok_i st')"
  by (simp add: path_step_def Let_def tok_i_path_emit tok_i_path_close split: option.split)

lemma path_step_advances:
  "path_step py_float tokens st = Inr st' \<Longrightarrow> tok_i st < tok_i st'"
  using path_step_advances_case [where py_float = py_float and tokens = tokens and st = st]
  by simp

text \<open>The \<^verbatim>\<open>while i < len(tokens)\<close> loop; an exception leaves it.\<close>

function path_loop ::
  "(string \<Rightarrow> real option) \<Rightarrow> string list \<Rightarrow> PathState \<Rightarrow> error + PathState" where
  "path_loop py_float tokens st =
     (if tok_i st < length tokens
      then (case path_step py_float tokens st of
              Inl e \<Rightarrow> Inl e
            | Inr st' \<Rightarrow> path_loop py_float tokens st')
      else Inr st)"
  by pat_completeness auto
termination
  by (relation "measure (\<lambda>(py_float, tokens, st). length tokens - tok_i st)")
     (auto dest: path_step_advances)

declare path_loop.simps [simp del]

definition path_init :: PathState where
  "path_init = \<lparr>segments = [], cursor = (0.0, 0.0), start_point = None, tok_i = 0,
                 command = None\<rparr>"

text \<open>\<^verbatim>\<open>_parse_path(path_data)\<close>\<close>

definition parse_path ::
  "(string \<Rightarrow> real option) \<Rightarrow> string \<Rightarrow> error + PathSegment list" where
  "parse_path py_float path_data =
     (case path_loop py_float (path_tokens path_data) path_init of
        Inl e \<Rightarrow> Inl e
      | Inr st \<Rightarrow> Inr (segments st))"

text \<open>The state after \<open>n\<close> passes through the loop body, or after the last pass when
  the loop has ended before: the states that the interpreter reaches on \<open>tokens\<close>.\<close>

fun path_run ::
  "(string \<Rightarrow> real option) \<Rightarrow> string list \<Rightarrow> nat \<Rightarrow> error + PathState" where
  "path_run py_float tokens 0 = Inr path_init"
| "path_run py_float tokens (Suc n) =
     (case path_run py_float tokens n of
        Inl e \<Rightarrow> Inl e
      | Inr st \<Rightarrow> if tok_i st < length tokens then path_step py_float tokens st else Inr st)"

subsection \<open>Shape extractors\<close>

text \<open>\<^verbatim>\<open>_parse_float(element.get(key))\<close>\<close>

definition float_attr :: "(string \<Rightarrow> real option) \<Rightarrow> Element \<Rightarrow> string \<Rightarrow> real" where
  "float_attr py_float element key = parse_float py_float (element_get element key None) 0.0"

text \<open>\<^verbatim>\<open>element.get(key, "")\<close>\<close>

definition str_attr :: "Element \<Rightarrow> string \<Rightarrow> string" where
  "str_attr element key = (case attrib element key of Some v \<Rightarrow> v | None \<Rightarrow> [])"

definition parse_rect :: "(string \<Rightarrow> real option) \<Rightarrow> Element \<Rightarrow> error + Shape" where
  "parse_rect py_float element =
     (case extract_style py_float element (None :: Style option) of
        Inl e \<Rightarrow> Inl e
      | Inr style \<Rightarrow>
          Inr (Rect RECT style
                 (float_attr py_float element ''x'') (float_attr py_float element ''y'')
                 (float_attr py_float element ''width'') (float_attr py_float element ''height'')
                 (float_attr py_float element ''rx'') (float_attr py_float element ''ry'')))"

definition parse_circle :: "(string \<Rightarrow> real option) \<Rightarrow> Element \<Rightarrow> error + Shape" where
  "parse_circle py_float element =
     (case extract_style py_float element (None :: Style option) of
        Inl e \<Rightarrow> Inl e
      | Inr style \<Rightarrow>
          Inr (Circle CIRCLE style
                 (float_attr py_float element ''cx'') (float_attr py_float element ''cy'')
                 (float_attr py_float element ''r'')))"

definition parse_ellipse :: "(string \<Rightarrow> real option) \<Rightarrow> Element \<Rightarrow> error + Shape" where
  "parse_ellipse py_float element =
     (case extract_style py_float element (None :: Style option) of
        Inl e \<Rightarrow> Inl e
      | Inr style \<Rightarrow>
          Inr (Ellipse ELLIPSE style
                 (float_attr py_float element ''cx'') (float_attr py_float element ''cy'')
                 (float_attr py_float element ''rx'') (float_attr py_float element ''ry'')))"

definition parse_line :: "(string \<Rightarrow> real option) \<Rightarrow> Element \<Rightarrow> error + Shape" where
  "parse_line py_float element =
     (case extract_style py_float element (None :: Style option) of
        Inl e \<Rightarrow> Inl e
      | Inr style \<Rightarrow>
          Inr (Line LINE style
                 (float_attr py_float element ''x1'') (float_attr py_float element ''y1'')
                 (float_attr py_float element ''x2'') (float_attr py_float element ''y2'')))"

definition parse_polyline ::
  "(string \<Rightarrow> real option) \<Rightarrow> Element \<Rightarrow> bool \<Rightarrow> error + Shape" where
  "parse_polyline py_float element is_closed =
     (case extract_style py_float element (None :: Style option) of
        Inl e \<Rightarrow> Inl e
      | Inr style \<Rightarrow>
          Inr (Polyline (if is_closed then POLYGON else POLYLINE) style
                 (parse_points py_float (str_attr element ''points'')) is_closed))"

definition parse_path_element :: "(string \<Rightarrow> real option) \<Rightarrow> Element \<Rightarrow> error + Shape" where
  "parse_path_element py_float element =
     (case extract_style py_float element (None :: Style option) of
        Inl e \<Rightarrow> Inl e
      | Inr style \<Rightarrow>
          (case parse_path py_float (str_attr element ''d'') of
             Inl e \<Rightarrow> Inl e
           | Inr segs \<Rightarrow> Inr (Path PATH style segs)))"

text \<open>\<^verbatim>\<open>element.itertext()\<close>: the text of the element and of its descendants in document
  order; empty and absent strings are left out.\<close>

definition text_items :: "string option \<Rightarrow> string list" where
  "text_items t = (case t of None \<Rightarrow> [] | Some s \<Rightarrow> if s = [] then [] else [s])"

fun itertext :: "Element \<Rightarrow> string list" where
  "itertext (Element t a tx ta cs) =
     text_items tx @ concat (map (\<lambda>e. itertext e @ text_items (el_tail e)) cs)"

text \<open>\<^verbatim>\<open>sep.join(xs)\<close>\<close>

fun join :: "string \<Rightarrow> string list \<Rightarrow> string" where
  "join sep [] = []"
| "join sep [x] = x"
| "join sep (x # y # rest) = x @ sep @ join sep (y # rest)"

definition parse_text :: "(string \<Rightarrow> real option) \<Rightarrow> Element \<Rightarrow> error + Shape" where
  "parse_text py_float element =
     (case extract_text_style py_float element of
        Inl e \<Rightarrow> Inl e
      | Inr text_style \<Rightarrow>
          Inr (Text TEXT text_style
                 (join '' '' (map strip (filter (\<lambda>t. strip t \<noteq> []) (itertext element))))
                 (float_attr py_float element ''x'') (float_attr py_float element ''y'')))"

text \<open>The dictionary \<^verbatim>\<open>_SHAPE_PARSERS\<close>.\<close>

definition SHAPE_PARSERS ::
  "string \<Rightarrow> ((string \<Rightarrow> real option) \<Rightarrow> Element \<Rightarrow> error + Shape) option" where
  "SHAPE_PARSERS =
     map_of [(''rect'', parse_rect),
             (''circle'', parse_circle),
             (''ellipse'', parse_ellipse),
             (''line'', parse_line),
             (''polyline'', \<lambda>py_float el. parse_polyline py_float el False),
             (''polygon'', \<lambda>py_float el. parse_polyline py_float el True),
             (''path'', parse_path_element),
             (''text'', parse_text)]"

subsection \<open>Document assembler\<close>

text \<open>\<^verbatim>\<open>root.iter()\<close>: the element and its descendants, depth first, in document order.\<close>

fun iter :: "Element \<Rightarrow> Element list" where
  "iter (Element t a tx ta cs) = Element t a tx ta cs # concat (map iter cs)"

text \<open>\<^verbatim>\<open>element.tag.split("}")[-1]\<close>\<close>

definition local_tag :: "Element \<Rightarrow> string" where
  "local_tag element = last (split_on (CHR ''}'') (tag element))"

text \<open>The \<^verbatim>\<open>for element in root.iter()\<close> loop of \<^verbatim>\<open>parse_svg\<close>, with the list
  \<^verbatim>\<open>shapes\<close> built so far.\<close>

fun walk ::
  "(string \<Rightarrow> real option) \<Rightarrow> Element list \<Rightarrow> Shape list \<Rightarrow> error + Shape list" where
  "walk py_float [] shapes_acc = Inr shapes_acc"
| "walk py_float (element # rest) shapes_acc =
     (case SHAPE_PARSERS (local_tag element) of
        None \<Rightarrow> walk py_float rest shapes_acc
      | Some parser \<Rightarrow>
          (case parser py_float element of
             Inl exc \<Rightarrow> Inl (UnableToParse (local_tag element) exc)
           | Inr shape \<Rightarrow> walk py_float rest (shapes_acc @ [shape])))"

text \<open>\<^verbatim>\<open>parse_svg\<close>, from the root of the tree that \<^verbatim>\<open>ET.parse\<close> read;
  \<^verbatim>\<open>if root.get("width")\<close> holds for a string that is neither absent nor empty.\<close>

definition canvas_attr :: "(string \<Rightarrow> real option) \<Rightarrow> Element \<Rightarrow> string \<Rightarrow> real option" where
  "canvas_attr py_float root_el key =
     (if attrib root_el key \<noteq> None \<and> attrib root_el key \<noteq> Some []
      then Some (float_attr py_float root_el key) else None)"

definition parse_svg :: "(string \<Rightarrow> real option) \<Rightarrow> Element \<Rightarrow> error + Document" where
  "parse_svg py_float root_el =
     (case walk py_float (iter root_el) [] of
        Inl e \<Rightarrow> Inl e
      | Inr shapes_list \<Rightarrow>
          Inr \<lparr>width = canvas_attr py_float root_el ''width'',
               height = canvas_attr py_float root_el ''height'',
               shapes = shapes_list\<rparr>)"

subsection \<open>The strings of the number pattern\<close>

text \<open>
  The strings that the number pattern \<^verbatim>\<open>-?\d+(?:\.\d+)?\<close> matches, built from their
  parts: an optional sign, the digits \<open>ip\<close> before the dot (at least one), and the
  digits \<open>fp\<close> behind the dot, where an empty \<open>fp\<close> stands for a number without a
  fraction. This is how the properties below speak of "a numeric string".
\<close>

definition number_literal :: "bool \<Rightarrow> string \<Rightarrow> string \<Rightarrow> string" where
  "number_literal neg ip fp =
     (if neg then ''-'' else []) @ ip @ (if fp = [] then [] else CHR ''.'' # fp)"

subsection \<open>Predicates on the states of the path interpreter\<close>

text \<open>
  What one pass of the loop can do to the list of segments: leave it, mark the last
  segment closed, append a segment of one point, create the first segment from the
  cursor and a point, or append a point to the last segment.
\<close>

definition seg_change :: "PathState \<Rightarrow> PathSegment list \<Rightarrow> bool" where
  "seg_change st segs' =
     (segs' = segments st
      \<or> segments st \<noteq> [] \<and> segs' = close_last (segments st)
      \<or> (\<exists>p. segs' = segments st @ [\<lparr>points = [p], closed = False\<rparr>])
      \<or> (\<exists>p. segments st = [] \<and> segs' = [\<lparr>points = [cursor st, p], closed = False\<rparr>])
      \<or> (\<exists>p. segments st \<noteq> [] \<and> segs' = append_point (segments st) p))"

text \<open>Every segment has a point.\<close>

definition segs_ok :: "PathSegment list \<Rightarrow> bool" where
  "segs_ok segs = (\<forall>s \<in> set segs. points s \<noteq> [])"



section \<open>Properties\<close>

subsection \<open>Characters\<close>

lemmas char_defs = is_digit_def ascii_uppercase_def ascii_lowercase_def is_letter_def
  is_space_def is_unit_char_def lower_char_def lower_def

lemma unit_char_not_digit: "is_unit_char c \<Longrightarrow> \<not> is_digit c"
  by (auto simp: is_unit_char_def is_letter_def is_digit_def ascii_uppercase_def
      ascii_lowercase_def)

lemma unit_char_not_space: "is_unit_char c \<Longrightarrow> \<not> is_space c"
  by (auto simp: is_unit_char_def is_letter_def is_space_def ascii_uppercase_def
      ascii_lowercase_def)

lemma unit_char_not_dot: "is_unit_char c \<Longrightarrow> c \<noteq> CHR ''.''"
  by (auto simp: is_unit_char_def is_letter_def ascii_uppercase_def ascii_lowercase_def)

lemma digit_not_space: "is_digit c \<Longrightarrow> \<not> is_space c"
  by (auto simp: is_digit_def is_space_def)

lemma digit_not_minus: "is_digit c \<Longrightarrow> c \<noteq> CHR ''-''"
  by (auto simp: is_digit_def)

lemma minus_not_space: "\<not> is_space (CHR ''-'')"
  by (simp add: is_space_def)

lemma dot_not_digit: "\<not> is_digit (CHR ''.'')"
  by (simp add: is_digit_def)

lemma takeWhile_digits_units:
  "list_all is_digit ds \<Longrightarrow> list_all is_unit_char u \<Longrightarrow> takeWhile is_digit (ds @ u) = ds"
  by (cases u) (auto simp: list_all_iff takeWhile_append2 unit_char_not_digit)

lemma dropWhile_digits_units:
  "list_all is_digit ds \<Longrightarrow> list_all is_unit_char u \<Longrightarrow> dropWhile is_digit (ds @ u) = u"
  by (cases u) (auto simp: list_all_iff dropWhile_append2 unit_char_not_digit)

lemma takeWhile_digits_dot:
  "list_all is_digit ds \<Longrightarrow> takeWhile is_digit (ds @ CHR ''.'' # r) = ds"
  by (auto simp: list_all_iff takeWhile_append2 dot_not_digit)

lemma dropWhile_digits_dot:
  "list_all is_digit ds \<Longrightarrow> dropWhile is_digit (ds @ CHR ''.'' # r) = CHR ''.'' # r"
  by (auto simp: list_all_iff dropWhile_append2 dot_not_digit)

subsection \<open>The length pattern on a number with a unit\<close>

lemma literal_match_number_unit:
  assumes "ip \<noteq> []" "list_all is_digit ip" "list_all is_digit fp" "list_all is_unit_char u"
  shows "literal_match (number_literal neg ip fp @ u) = Some (number_literal neg ip fp, u)"
proof -
  define sgn where "sgn = (if neg then ''-'' else [])"
  define frac where "frac = (if fp = [] then [] else CHR ''.'' # fp)"
  define s1 where "s1 = ip @ frac @ u"
  have tw: "takeWhile is_digit s1 = ip"
    using assms by (simp add: s1_def frac_def takeWhile_digits_units takeWhile_digits_dot)
  have dw: "dropWhile is_digit s1 = frac @ u"
    using assms by (simp add: s1_def frac_def dropWhile_digits_units dropWhile_digits_dot)
  have hd_s1: "\<exists>d r. s1 = d # r \<and> d \<noteq> CHR ''-''"
    using assms(1,2) by (cases ip) (auto simp: s1_def digit_not_minus)
  have sp: "(case sgn @ s1 of
               [] \<Rightarrow> ([], sgn @ s1)
             | c # cs \<Rightarrow> if c = CHR ''-'' then ([c], cs) else ([], sgn @ s1)) = (sgn, s1)"
    using hd_s1 by (auto simp: sgn_def)
  have lm: "literal_match (sgn @ s1) =
              (case frac @ u of
                 [] \<Rightarrow> Some (sgn @ ip, [])
               | c # cs \<Rightarrow>
                   if c = CHR ''.'' \<and> takeWhile is_digit cs \<noteq> []
                   then Some (sgn @ ip @ [c] @ takeWhile is_digit cs, dropWhile is_digit cs)
                   else Some (sgn @ ip, frac @ u))"
    unfolding literal_match_def sp Let_def using assms(1)
    by (simp add: tw dw cong: if_cong list.case_cong)
  have res: "(case frac @ u of
                 [] \<Rightarrow> Some (sgn @ ip, [])
               | c # cs \<Rightarrow>
                   if c = CHR ''.'' \<and> takeWhile is_digit cs \<noteq> []
                   then Some (sgn @ ip @ [c] @ takeWhile is_digit cs, dropWhile is_digit cs)
                   else Some (sgn @ ip, frac @ u)) = Some (sgn @ ip @ frac, u)"
  proof (cases "fp = []")
    case True
    then show ?thesis using assms(4)
      by (cases u) (auto simp: frac_def unit_char_not_dot)
  next
    case False
    then show ?thesis using assms(3,4)
      by (simp add: frac_def takeWhile_digits_units dropWhile_digits_units)
  qed
  have "number_literal neg ip fp @ u = sgn @ s1"
    by (simp add: number_literal_def sgn_def frac_def s1_def)
  moreover have "number_literal neg ip fp = sgn @ ip @ frac"
    by (simp add: number_literal_def sgn_def frac_def)
  ultimately show ?thesis using lm res by simp
qed

lemma length_fullmatch_number_unit:
  assumes "ip \<noteq> []" "list_all is_digit ip" "list_all is_digit fp" "list_all is_unit_char u"
  shows "length_fullmatch (number_literal neg ip fp @ u) = Some (number_literal neg ip fp, u)"
  using assms by (simp add: length_fullmatch_def literal_match_number_unit)

lemma strip_id:
  assumes "s \<noteq> []" "\<not> is_space (hd s)" "\<not> is_space (last s)"
  shows "strip s = s"
proof -
  have "dropWhile is_space s = s" using assms(1,2) by (cases s) auto
  moreover have "dropWhile is_space (rev s) = rev s"
    using assms(1,3) by (cases "rev s") (auto simp: last_rev [symmetric] hd_rev)
  ultimately show ?thesis by (simp add: strip_def)
qed

lemma strip_number_unit:
  assumes "ip \<noteq> []" "list_all is_digit ip" "list_all is_digit fp" "list_all is_unit_char u"
  shows "strip (number_literal neg ip fp @ u) = number_literal neg ip fp @ u"
proof (rule strip_id)
  show "number_literal neg ip fp @ u \<noteq> []" using assms(1) by (simp add: number_literal_def)
  show "\<not> is_space (hd (number_literal neg ip fp @ u))"
    using assms(1,2)
    by (cases ip) (auto simp: number_literal_def digit_not_space minus_not_space)
  show "\<not> is_space (last (number_literal neg ip fp @ u))"
  proof (cases "u = []")
    case False
    then show ?thesis using assms(4)
      by (auto simp: list_all_iff unit_char_not_space)
  next
    case True
    show ?thesis
    proof (cases "fp = []")
      case True
      with \<open>u = []\<close> show ?thesis using assms(1,2)
        by (auto simp: number_literal_def list_all_iff digit_not_space)
    next
      case False
      with \<open>u = []\<close> show ?thesis using assms(3)
        by (auto simp: number_literal_def list_all_iff digit_not_space)
    qed
  qed
qed

text \<open>On a number followed by unit characters, \<open>parse_float\<close> takes the branch of the
  successful match.\<close>

lemma parse_float_number_unit:
  assumes "ip \<noteq> []" "list_all is_digit ip" "list_all is_digit fp" "list_all is_unit_char u"
  shows "parse_float py_float (Some (number_literal neg ip fp @ u)) dflt =
           (let number = float_of_literal (number_literal neg ip fp);
                unit = lower u
            in if unit \<in> {'''', ''px''} then number
               else if unit = ''pt'' then number * 1.3333
               else if unit = ''cm'' then number * 37.7953
               else if unit = ''mm'' then number * 3.77953
               else if unit = ''in'' then number * 96.0
               else if unit = ''%'' then number
               else number)"
proof -
  have ne: "number_literal neg ip fp @ u \<noteq> []"
    using assms(1) by (simp add: number_literal_def)
  show ?thesis
    unfolding parse_float_def
    using ne
    by (simp only: option.case strip_number_unit [OF assms]
        length_fullmatch_number_unit [OF assms] Let_def if_False prod.case)
qed

subsection \<open>Claims about the unit and value normaliser\<close>

text \<open>
  Claim C3. \<open>parse_color\<close> maps an absent input, the empty string and the token
  \<^verbatim>\<open>none\<close> in any mix of upper and lower case (with white space around it or not) to
  absent; the name \<^verbatim>\<open>red\<close> and the functional form \<^verbatim>\<open>rgb(255,0,0)\<close> to
  \<^verbatim>\<open>#ff0000\<close>; and the seven-character value \<^verbatim>\<open>#ABCDEF\<close> to its lowercase form.
\<close>

theorem parse_color_cases:
  "parse_color None = None
   \<and> parse_color (Some '''') = None
   \<and> (\<forall>s. lower (strip s) = ''none'' \<longrightarrow> parse_color (Some s) = None)
   \<and> parse_color (Some ''red'') = Some ''#ff0000''
   \<and> parse_color (Some ''rgb(255,0,0)'') = Some ''#ff0000''
   \<and> parse_color (Some ''#ABCDEF'') = Some ''#abcdef''"
proof -
  have a: "parse_color None = None" by (simp add: parse_color_def)
  have b: "parse_color (Some '''') = None" by (simp add: parse_color_def strip_def)
  have c: "parse_color (Some s) = None" if "lower (strip s) = ''none''" for s
  proof -
    have "map_of COLOR_NAMES ''none'' = Some ''none''" by (simp add: COLOR_NAMES_def)
    moreover have "lower ''none'' = ''none''" by (simp add: char_defs)
    ultimately show ?thesis using that by (simp add: parse_color_def Let_def)
  qed
  have d: "parse_color (Some ''red'') = Some ''#ff0000''"
    by (simp add: parse_color_def COLOR_NAMES_def strip_def startswith_def char_defs)
  have e: "parse_color (Some ''rgb(255,0,0)'') = Some ''#ff0000''"
    by (simp add: parse_color_def COLOR_NAMES_def strip_def startswith_def char_defs
        findall_digits_def hex02_def hex_digit_def nat_of_digits_def digit_val_def)
  have f: "parse_color (Some ''#ABCDEF'') = Some ''#abcdef''"
    by (simp add: parse_color_def COLOR_NAMES_def strip_def startswith_def char_defs)
  from a b c d e f show ?thesis by blast
qed

theorem parse_color_cases_witness:
  "lower (strip '' NoNe'') = ''none'' \<and> parse_color (Some '' NoNe'') = None"
proof -
  have h: "lower (strip '' NoNe'') = ''none''" by (simp add: strip_def char_defs)
  from parse_color_cases
  have "\<forall>s. lower (strip s) = ''none'' \<longrightarrow> parse_color (Some s) = None" by blast
  with h show ?thesis by blast
qed




text \<open>
  Claim C9. On a numeric string followed by letters that are no recognised unit (as in
  \<^verbatim>\<open>5em\<close>), \<open>parse_float\<close> does not return the default: it returns the value of the
  numeric part unchanged, which is also what it returns for the same number in
  \<^verbatim>\<open>px\<close>.
\<close>

theorem parse_length_unknown_unit:
  assumes "ip \<noteq> []" and "list_all is_digit ip" and "list_all is_digit fp"
    and "u \<noteq> []" and "list_all is_letter u"
    and "lower u \<notin> {''px'', ''pt'', ''cm'', ''mm'', ''in''}"
  shows "parse_float py_float (Some (number_literal neg ip fp @ u)) dflt
           = float_of_literal (number_literal neg ip fp)
         \<and> parse_float py_float (Some (number_literal neg ip fp @ u)) dflt
           = parse_float py_float (Some (number_literal neg ip fp @ ''px'')) dflt"
proof -
  have u: "list_all is_unit_char u"
    using assms(5) by (simp add: list_all_iff is_unit_char_def)
  have px: "list_all is_unit_char ''px''" "lower ''px'' = ''px''"
    by (simp_all add: char_defs)
  have 1: "parse_float py_float (Some (number_literal neg ip fp @ u)) dflt
             = float_of_literal (number_literal neg ip fp)"
    using assms(6) by (simp add: parse_float_number_unit [OF assms(1,2,3) u] Let_def)
  have 2: "parse_float py_float (Some (number_literal neg ip fp @ ''px'')) dflt
             = float_of_literal (number_literal neg ip fp)"
    by (simp add: parse_float_number_unit [OF assms(1,2,3) px(1)] px(2) Let_def)
  from 1 2 show ?thesis by simp
qed

theorem parse_length_unknown_unit_witness:
  "''5'' \<noteq> [] \<and> list_all is_digit ''5'' \<and> list_all is_digit [] \<and> ''em'' \<noteq> []
   \<and> list_all is_letter ''em'' \<and> lower ''em'' \<notin> {''px'', ''pt'', ''cm'', ''mm'', ''in''}
   \<and> number_literal False ''5'' [] @ ''em'' = ''5em''
   \<and> parse_float (\<lambda>s. None) (Some ''5em'') 7 = 5"
proof -
  have h: "''5'' \<noteq> []" "list_all is_digit ''5''" "list_all is_digit []" "''em'' \<noteq> []"
    "list_all is_letter ''em''" "lower ''em'' \<notin> {''px'', ''pt'', ''cm'', ''mm'', ''in''}"
    by (simp_all add: char_defs)
  have n: "number_literal False ''5'' [] @ ''em'' = ''5em''"
    "number_literal False ''5'' [] = ''5''"
    by (simp_all add: number_literal_def)
  have v: "float_of_literal ''5'' = 5"
    by (simp add: float_of_literal_def is_digit_def nat_of_digits_def digit_val_def)
  from parse_length_unknown_unit [OF h, of "\<lambda>s. None" False 7]
  have "parse_float (\<lambda>s. None) (Some ''5em'') 7 = 5" by (simp add: n v)
  with h n show ?thesis by blast
qed

subsection \<open>Evaluation\<close>

text \<open>The definitions that \<open>simp\<close> unfolds to run the parser on a concrete input.\<close>

lemmas eval_defs = Let_def char_defs strip_def startswith_def split_first_def digit_val_def
  nat_of_digits_def hex_digit_def hex02_def literal_match_def length_fullmatch_def
  float_of_literal_def findall_digits_def parse_float_def parse_color_def COLOR_NAMES_def
  element_get_def merge_style_def extract_style_def

lemmas path_eval_defs = path_tokens_def path_token_match_def number_token_match_def
  path_loop.simps parse_path_def path_init_def path_step_def path_emit_def path_close_def
  is_command_token_def append_point_def close_last_def

lemmas shape_eval_defs = parse_svg_def canvas_attr_def float_attr_def str_attr_def
  local_tag_def SHAPE_PARSERS_def parse_rect_def parse_circle_def parse_ellipse_def
  parse_line_def parse_polyline_def parse_path_element_def parse_text_def

subsection \<open>Claims about the style resolver\<close>

text \<open>
  Claim C5. Style resolution precedence: for each of the properties fill, stroke,
  stroke-width and opacity, the resolved value comes from the direct attribute when the
  element has one, and from the declaration of the style block only when the attribute
  is absent. For an element with \<^verbatim>\<open>fill="#111111"\<close> and the style block
  \<^verbatim>\<open>fill:#222222\<close> the resolved fill is \<^verbatim>\<open>#111111\<close>.
\<close>

theorem style_attribute_precedence:
  assumes "extract_style py_float element base_style = Inr style"
  shows "(\<forall>a. attrib element ''fill'' = Some a \<longrightarrow> fill_color style = parse_color (Some a))
       \<and> (attrib element ''fill'' = None \<longrightarrow>
            fill_color style = parse_color (merge_style element ''fill''))
       \<and> (\<forall>a. attrib element ''stroke'' = Some a \<longrightarrow> stroke_color style = parse_color (Some a))
       \<and> (attrib element ''stroke'' = None \<longrightarrow>
            stroke_color style = parse_color (merge_style element ''stroke''))
       \<and> (\<forall>a. attrib element ''stroke-width'' = Some a \<longrightarrow>
            stroke_width style
              = parse_float py_float (Some a)
                  (case base_style of Some b \<Rightarrow> stroke_width b | None \<Rightarrow> 1.0))
       \<and> (attrib element ''stroke-width'' = None \<longrightarrow>
            stroke_width style
              = parse_float py_float (merge_style element ''stroke-width'')
                  (case base_style of Some b \<Rightarrow> stroke_width b | None \<Rightarrow> 1.0))
       \<and> (\<forall>a. attrib element ''opacity'' = Some a \<longrightarrow> py_float a = Some (opacity style))
       \<and> (attrib element ''opacity'' = None \<longrightarrow>
            (case merge_style element ''opacity'' of
               Some b \<Rightarrow> py_float b = Some (opacity style)
             | None \<Rightarrow> opacity style
                         = (case base_style of Some b \<Rightarrow> opacity b | None \<Rightarrow> 1.0)))"
  using assms
  by (auto simp: extract_style_def element_get_def Let_def
           split: option.splits sum.splits)

theorem style_attribute_precedence_witness:
  "extract_style (\<lambda>s. None)
     (Element ''rect'' [''fill'' \<mapsto> ''#111111'', ''style'' \<mapsto> ''fill:#222222''] None None [])
     (None :: Style option)
     = Inr \<lparr>fill_color = Some ''#111111'', stroke_color = None, stroke_width = 1,
            opacity = 1\<rparr>
   \<and> attrib (Element ''rect'' [''fill'' \<mapsto> ''#111111'', ''style'' \<mapsto> ''fill:#222222'']
               None None []) ''fill'' = Some ''#111111''
   \<and> merge_style (Element ''rect'' [''fill'' \<mapsto> ''#111111'', ''style'' \<mapsto> ''fill:#222222'']
               None None []) ''fill'' = Some ''#222222''
   \<and> fill_color \<lparr>fill_color = Some ''#111111'', stroke_color = None, stroke_width = 1,
                 opacity = 1\<rparr> = parse_color (Some ''#111111'')"
proof -
  let ?el = "Element ''rect'' [''fill'' \<mapsto> ''#111111'', ''style'' \<mapsto> ''fill:#222222'']
               None None []"
  let ?st = "\<lparr>fill_color = Some ''#111111'', stroke_color = None, stroke_width = 1,
              opacity = 1\<rparr>"
  have h: "extract_style (\<lambda>s. None) ?el (None :: Style option) = Inr ?st"
    by (simp add: eval_defs)
  have a: "attrib ?el ''fill'' = Some ''#111111''" by simp
  have m: "merge_style ?el ''fill'' = Some ''#222222''"
    by (simp add: merge_style_def split_first_def strip_def is_space_def)
  from style_attribute_precedence [OF h] a
  have "fill_color ?st = parse_color (Some ''#111111'')" by blast
  with h a m show ?thesis by blast
qed

subsection \<open>Claims about the document assembler\<close>

lemma parser_shape_type:
  assumes "SHAPE_PARSERS t = Some parser" and "parser py_float e = Inr sh"
  shows "ShapeType_value (shape_type sh) = t"
  using assms
  by (auto simp: SHAPE_PARSERS_def ShapeType_value_def parse_rect_def parse_circle_def
        parse_ellipse_def parse_line_def parse_polyline_def parse_path_element_def
        parse_text_def
      split: if_splits sum.splits)

lemma walk_shapes:
  "walk py_float els acc = Inr shs \<Longrightarrow>
   map Inr shs = map Inr acc
     @ map (\<lambda>e. the (SHAPE_PARSERS (local_tag e)) py_float e)
         (filter (\<lambda>e. SHAPE_PARSERS (local_tag e) \<noteq> None) els)"
proof (induction els arbitrary: acc)
  case Nil
  then show ?case by simp
next
  case (Cons e els)
  show ?case
  proof (cases "SHAPE_PARSERS (local_tag e)")
    case None
    with Cons show ?thesis by simp
  next
    case (Some parser)
    with Cons.prems obtain sh where sh: "parser py_float e = Inr sh"
      and w: "walk py_float els (acc @ [sh]) = Inr shs"
      by (auto split: sum.splits)
    from Cons.IH [OF w] Some sh show ?thesis by simp
  qed
qed

lemma walk_shape_types:
  "walk py_float els acc = Inr shs \<Longrightarrow>
   map (\<lambda>s. ShapeType_value (shape_type s)) shs
     = map (\<lambda>s. ShapeType_value (shape_type s)) acc
       @ filter (\<lambda>t. SHAPE_PARSERS t \<noteq> None) (map local_tag els)"
proof (induction els arbitrary: acc)
  case Nil
  then show ?case by simp
next
  case (Cons e els)
  show ?case
  proof (cases "SHAPE_PARSERS (local_tag e)")
    case None
    with Cons show ?thesis by simp
  next
    case (Some parser)
    with Cons.prems obtain sh where sh: "parser py_float e = Inr sh"
      and w: "walk py_float els (acc @ [sh]) = Inr shs"
      by (auto split: sum.splits)
    from Cons.IH [OF w] Some parser_shape_type [OF Some sh] show ?thesis by simp
  qed
qed

text \<open>
  Claim C7. Document order preservation: \<open>parse_svg\<close> appends one shape for every
  element with a recognised tag, in depth-first document order: the shapes of the
  document are the results of the extractors on the recognised elements of
  \<open>iter root_el\<close>, in that order, and so are their shape types. A source whose shape
  elements are a rect, a circle and a path gives these three shapes in this order.
\<close>

theorem document_order:
  assumes "parse_svg py_float root_el = Inr doc"
  shows "map Inr (shapes doc)
           = map (\<lambda>e. the (SHAPE_PARSERS (local_tag e)) py_float e)
               (filter (\<lambda>e. SHAPE_PARSERS (local_tag e) \<noteq> None) (iter root_el))
         \<and> map (\<lambda>s. ShapeType_value (shape_type s)) (shapes doc)
           = filter (\<lambda>t. SHAPE_PARSERS t \<noteq> None) (map local_tag (iter root_el))"
proof -
  from assms obtain shs where w: "walk py_float (iter root_el) [] = Inr shs"
    and d: "shapes doc = shs"
    by (auto simp: parse_svg_def split: sum.splits)
  from walk_shapes [OF w] walk_shape_types [OF w] d show ?thesis by simp
qed

theorem document_order_witness:
  "parse_svg (\<lambda>s. None)
     (Element ''{http://www.w3.org/2000/svg}svg'' [''width'' \<mapsto> ''100''] None None
       [Element ''{http://www.w3.org/2000/svg}rect'' [''x'' \<mapsto> ''1''] None None [],
        Element ''g'' Map.empty None None
          [Element ''circle'' [''r'' \<mapsto> ''2''] None None []],
        Element ''path'' [''d'' \<mapsto> ''M0,0 L3,4''] None None []])
     = Inr \<lparr>width = Some 100, height = None,
            shapes =
              [Rect RECT \<lparr>fill_color = None, stroke_color = None, stroke_width = 1,
                           opacity = 1\<rparr> 1 0 0 0 0 0,
               Circle CIRCLE \<lparr>fill_color = None, stroke_color = None, stroke_width = 1,
                               opacity = 1\<rparr> 0 0 2,
               Path PATH \<lparr>fill_color = None, stroke_color = None, stroke_width = 1,
                           opacity = 1\<rparr>
                 [\<lparr>points = [(0, 0), (3, 4)], closed = False\<rparr>]]\<rparr>
   \<and> filter (\<lambda>t. SHAPE_PARSERS t \<noteq> None)
        (map local_tag
          (iter (Element ''{http://www.w3.org/2000/svg}svg'' [''width'' \<mapsto> ''100''] None None
             [Element ''{http://www.w3.org/2000/svg}rect'' [''x'' \<mapsto> ''1''] None None [],
              Element ''g'' Map.empty None None
                [Element ''circle'' [''r'' \<mapsto> ''2''] None None []],
              Element ''path'' [''d'' \<mapsto> ''M0,0 L3,4''] None None []])))
       = [''rect'', ''circle'', ''path'']
   \<and> map (\<lambda>s. ShapeType_value (shape_type s))
        [Rect RECT \<lparr>fill_color = None, stroke_color = None, stroke_width = 1,
                     opacity = 1\<rparr> 1 0 0 0 0 0,
         Circle CIRCLE \<lparr>fill_color = None, stroke_color = None, stroke_width = 1,
                         opacity = 1\<rparr> 0 0 2,
         Path PATH \<lparr>fill_color = None, stroke_color = None, stroke_width = 1,
                     opacity = 1\<rparr>
           [\<lparr>points = [(0, 0), (3, 4)], closed = False\<rparr>]]
       = [''rect'', ''circle'', ''path'']"
proof -
  let ?root = "Element ''{http://www.w3.org/2000/svg}svg'' [''width'' \<mapsto> ''100''] None None
       [Element ''{http://www.w3.org/2000/svg}rect'' [''x'' \<mapsto> ''1''] None None [],
        Element ''g'' Map.empty None None
          [Element ''circle'' [''r'' \<mapsto> ''2''] None None []],
        Element ''path'' [''d'' \<mapsto> ''M0,0 L3,4''] None None []]"
  let ?shapes = "[Rect RECT \<lparr>fill_color = None, stroke_color = None, stroke_width = 1,
                           opacity = 1\<rparr> 1 0 0 0 0 0,
               Circle CIRCLE \<lparr>fill_color = None, stroke_color = None, stroke_width = 1,
                               opacity = 1\<rparr> 0 0 2,
               Path PATH \<lparr>fill_color = None, stroke_color = None, stroke_width = 1,
                           opacity = 1\<rparr>
                 [\<lparr>points = [(0, 0), (3, 4)], closed = False\<rparr>]]"
  have h: "parse_svg (\<lambda>s. None) ?root
             = Inr \<lparr>width = Some 100, height = None, shapes = ?shapes\<rparr>"
    by (simp add: shape_eval_defs eval_defs path_eval_defs)
  have t: "filter (\<lambda>t. SHAPE_PARSERS t \<noteq> None) (map local_tag (iter ?root))
             = [''rect'', ''circle'', ''path'']"
    by (simp add: local_tag_def SHAPE_PARSERS_def)
  from document_order [OF h] t
  have "map (\<lambda>s. ShapeType_value (shape_type s)) ?shapes = [''rect'', ''circle'', ''path'']"
    by simp
  with h t show ?thesis by blast
qed

section \<open>Properties of the path interpreter\<close>

subsection \<open>What one pass does to the segments\<close>

lemma seg_change_same: "segments st = segs' \<Longrightarrow> seg_change st segs'"
  by (auto simp: seg_change_def)

lemma seg_change_close: "seg_change st (segments (path_close (st\<lparr>tok_i := k\<rparr>)))"
  by (simp add: seg_change_def path_close_def)

lemma seg_change_emit: "seg_change st (segments (path_emit (st\<lparr>tok_i := k\<rparr>) cmd p))"
proof (cases "cmd \<in> {''M'', ''m''}")
  case True
  then have "segments (path_emit (st\<lparr>tok_i := k\<rparr>) cmd p)
               = segments st @ [\<lparr>points = [p], closed = False\<rparr>]"
    by (simp add: path_emit_def)
  then show ?thesis unfolding seg_change_def by blast
next
  case False
  show ?thesis
  proof (cases "segments st = []")
    case True
    with False have "segments (path_emit (st\<lparr>tok_i := k\<rparr>) cmd p)
               = [\<lparr>points = [cursor st, p], closed = False\<rparr>]"
      by (simp add: path_emit_def)
    with True show ?thesis unfolding seg_change_def by blast
  next
    case nonempty: False
    with False have "segments (path_emit (st\<lparr>tok_i := k\<rparr>) cmd p)
               = append_point (segments st) p"
      by (simp add: path_emit_def)
    with nonempty show ?thesis unfolding seg_change_def by blast
  qed
qed

lemma seg_change_step_case:
  "(case path_step py_float tokens st of
      Inl _ \<Rightarrow> True
    | Inr st' \<Rightarrow> seg_change st (segments st'))"
  by (simp add: path_step_def Let_def seg_change_same seg_change_close seg_change_emit
      split: option.split)

lemma seg_change_step:
  "path_step py_float tokens st = Inr st' \<Longrightarrow> seg_change st (segments st')"
  using seg_change_step_case [where py_float = py_float and tokens = tokens and st = st]
  by simp

text \<open>A property of the segment list that every pass keeps holds when the loop ends.\<close>

lemma path_loop_invariant:
  assumes keep: "\<And>st segs'. seg_change st segs' \<Longrightarrow> P (segments st) \<Longrightarrow> P segs'"
  shows "path_loop py_float tokens st = Inr st' \<Longrightarrow> P (segments st) \<Longrightarrow> P (segments st')"
proof (induction py_float tokens st rule: path_loop.induct)
  case (1 py_float tokens st)
  show ?case
  proof (cases "tok_i st < length tokens")
    case True
    with "1.prems"(1) obtain st1 where s: "path_step py_float tokens st = Inr st1"
      and l: "path_loop py_float tokens st1 = Inr st'"
      by (subst (asm) path_loop.simps) (auto split: sum.splits)
    have "P (segments st1)"
      using keep [OF seg_change_step [OF s] "1.prems"(2)] .
    from "1.IH" [OF True s l this] show ?thesis .
  next
    case False
    with "1.prems" show ?thesis by (subst (asm) path_loop.simps) simp
  qed
qed

subsection \<open>Every segment keeps a point\<close>

lemma segs_ok_append_point:
  "segs \<noteq> [] \<Longrightarrow> segs_ok segs \<Longrightarrow> segs_ok (append_point segs p)"
  by (cases segs rule: rev_cases) (simp_all add: segs_ok_def append_point_def)

lemma segs_ok_close_last:
  "segs \<noteq> [] \<Longrightarrow> segs_ok segs \<Longrightarrow> segs_ok (close_last segs)"
  by (cases segs rule: rev_cases) (simp_all add: segs_ok_def close_last_def)

lemma segs_ok_change:
  assumes "seg_change st segs'" and "segs_ok (segments st)"
  shows "segs_ok segs'"
proof -
  from assms(1) consider
      (same) "segs' = segments st"
    | (close) "segments st \<noteq> []" "segs' = close_last (segments st)"
    | (new) p where "segs' = segments st @ [\<lparr>points = [p], closed = False\<rparr>]"
    | (first) p where "segs' = [\<lparr>points = [cursor st, p], closed = False\<rparr>]"
    | (app) p where "segments st \<noteq> []" "segs' = append_point (segments st) p"
    unfolding seg_change_def by blast
  then show ?thesis
  proof cases
    case same
    with assms(2) show ?thesis by simp
  next
    case close
    with assms(2) show ?thesis by (simp add: segs_ok_close_last)
  next
    case new
    with assms(2) show ?thesis by (simp add: segs_ok_def)
  next
    case first
    then show ?thesis by (simp add: segs_ok_def)
  next
    case app
    with assms(2) show ?thesis by (simp add: segs_ok_append_point)
  qed
qed

text \<open>
  Claim C8. Invariant of the path interpreter: whatever the path data, every segment of
  the sequence that \<open>parse_path\<close> returns has at least one point; a segment without
  points is never appended.
\<close>

theorem path_segments_nonempty:
  assumes "parse_path py_float d = Inr segs"
  shows "\<forall>s \<in> set segs. points s \<noteq> []"
proof -
  from assms obtain st where l: "path_loop py_float (path_tokens d) path_init = Inr st"
    and s: "segs = segments st"
    by (auto simp: parse_path_def split: sum.splits)
  have "segs_ok (segments path_init)" by (simp add: path_init_def segs_ok_def)
  then have "segs_ok (segments st)"
    using path_loop_invariant [of segs_ok py_float "path_tokens d" path_init st] segs_ok_change l
    by blast
  with s show ?thesis by (simp add: segs_ok_def)
qed

theorem path_segments_nonempty_witness:
  "parse_path (\<lambda>s. None) ''M0,0 l5,5 l5,0 M7,7''
     = Inr [\<lparr>points = [(0, 0), (5, 5), (10, 5)], closed = False\<rparr>,
            \<lparr>points = [(7, 7)], closed = False\<rparr>]
   \<and> points \<lparr>points = [(0 :: real, 0 :: real), (5, 5), (10, 5)], closed = False\<rparr> \<noteq> []
   \<and> points \<lparr>points = [(7 :: real, 7 :: real)], closed = False\<rparr> \<noteq> []"
proof -
  have h: "parse_path (\<lambda>s. None) ''M0,0 l5,5 l5,0 M7,7''
     = Inr [\<lparr>points = [(0, 0), (5, 5), (10, 5)], closed = False\<rparr>,
            \<lparr>points = [(7, 7)], closed = False\<rparr>]"
    by (simp add: eval_defs path_eval_defs)
  from path_segments_nonempty [OF h]
  have "points \<lparr>points = [(0 :: real, 0 :: real), (5, 5), (10, 5)], closed = False\<rparr> \<noteq> []
   \<and> points \<lparr>points = [(7 :: real, 7 :: real)], closed = False\<rparr> \<noteq> []"
    by (simp del: PathSegment.simps)
  with h show ?thesis by blast
qed

subsection \<open>The states that the interpreter reaches\<close>

lemma path_run_loop:
  "path_run py_float tokens n = Inr st \<Longrightarrow>
   path_loop py_float tokens st = path_loop py_float tokens path_init"
proof (induction n arbitrary: st)
  case 0
  then show ?case by simp
next
  case (Suc n)
  from Suc.prems obtain st0 where r: "path_run py_float tokens n = Inr st0"
    and s: "(if tok_i st0 < length tokens then path_step py_float tokens st0 else Inr st0)
              = Inr st"
    by (auto split: sum.splits)
  have "path_loop py_float tokens st0 = path_loop py_float tokens st"
  proof (cases "tok_i st0 < length tokens")
    case True
    with s have "path_step py_float tokens st0 = Inr st" by simp
    with True show ?thesis by (subst path_loop.simps) simp
  next
    case False
    with s show ?thesis by simp
  qed
  with Suc.IH [OF r] show ?case by simp
qed








subsection \<open>The first two points of the first segment\<close>







subsection \<open>An x value with no y at the end of the data\<close>

lemma path_emit_last:
  "segments (path_emit st cmd p) \<noteq> []
   \<and> points (last (segments (path_emit st cmd p))) \<noteq> []
   \<and> last (points (last (segments (path_emit st cmd p)))) = p"
  by (simp add: path_emit_def append_point_def)

lemma path_step_unpaired:
  assumes "\<not> is_command_token (tokens ! tok_i st)" and "command st = Some c"
    and "c \<in> {''M'', ''L'', ''m'', ''l''}" and "Suc (tok_i st) = length tokens"
  shows "path_step py_float tokens st
           = Inr (path_emit (st\<lparr>tok_i := tok_i st + 2\<rparr>) c
                    (if c \<in> {''M'', ''L''}
                     then (parse_float py_float (Some (tokens ! tok_i st)) 0, 0)
                     else (fst (cursor st) + parse_float py_float (Some (tokens ! tok_i st)) 0,
                           snd (cursor st))))"
proof -
  from assms(3) consider "c = ''M''" | "c = ''L''" | "c = ''m''" | "c = ''l''" by blast
  then show ?thesis
  proof cases
    case 1
    with assms(1,2) assms(4) [symmetric] show ?thesis by (simp add: path_step_def Let_def)
  next
    case 2
    with assms(1,2) assms(4) [symmetric] show ?thesis by (simp add: path_step_def Let_def)
  next
    case 3
    with assms(1,2) assms(4) [symmetric] show ?thesis by (simp add: path_step_def Let_def)
  next
    case 4
    with assms(1,2) assms(4) [symmetric] show ?thesis by (simp add: path_step_def Let_def)
  qed
qed

text \<open>
  Claim C10. When the path data ends with an x value of an \<^verbatim>\<open>M\<close> or \<^verbatim>\<open>L\<close> command
  that has no y behind it, \<open>parse_path\<close> does not fail: it returns the segments, and
  the point it adds last has the y value \<open>0\<close> for the absolute commands \<^verbatim>\<open>M\<close> and
  \<^verbatim>\<open>L\<close>, and the y value of the cursor, unchanged, for the relative commands \<^verbatim>\<open>m\<close>
  and \<^verbatim>\<open>l\<close>. Here \<open>st\<close> is the state that the loop has reached after \<open>n\<close>
  passes, with the last token left to read.
\<close>

theorem unpaired_coordinate:
  assumes run: "path_run py_float (path_tokens d) n = Inr st"
    and fin: "Suc (tok_i st) = length (path_tokens d)"
    and tok: "\<not> is_command_token (path_tokens d ! tok_i st)"
    and cmd: "command st = Some c"
    and c: "c \<in> {''M'', ''L'', ''m'', ''l''}"
  shows "\<exists>segs. parse_path py_float d = Inr segs \<and> segs \<noteq> [] \<and> points (last segs) \<noteq> []
           \<and> last (points (last segs))
               = (if c \<in> {''M'', ''L''}
                  then (parse_float py_float (Some (path_tokens d ! tok_i st)) 0, 0)
                  else (fst (cursor st)
                          + parse_float py_float (Some (path_tokens d ! tok_i st)) 0,
                        snd (cursor st)))"
proof -
  define p where "p = (if c \<in> {''M'', ''L''}
                  then (parse_float py_float (Some (path_tokens d ! tok_i st)) 0, 0)
                  else (fst (cursor st)
                          + parse_float py_float (Some (path_tokens d ! tok_i st)) 0,
                        snd (cursor st)))"
  define st' where "st' = path_emit (st\<lparr>tok_i := tok_i st + 2\<rparr>) c p"
  have step: "path_step py_float (path_tokens d) st = Inr st'"
    unfolding st'_def p_def by (rule path_step_unpaired [OF tok cmd c fin])
  have i': "tok_i st' = tok_i st + 2" by (simp add: st'_def tok_i_path_emit)
  from fin have lt: "tok_i st < length (path_tokens d)" by simp
  have "path_loop py_float (path_tokens d) st = path_loop py_float (path_tokens d) st'"
    using lt step by (subst path_loop.simps) simp
  also have "\<dots> = Inr st'"
    using fin i' by (subst path_loop.simps) simp
  finally have "path_loop py_float (path_tokens d) path_init = Inr st'"
    using path_run_loop [OF run] by simp
  then have "parse_path py_float d = Inr (segments st')" by (simp add: parse_path_def)
  moreover have "segments st' \<noteq> [] \<and> points (last (segments st')) \<noteq> []
                   \<and> last (points (last (segments st'))) = p"
    unfolding st'_def by (rule path_emit_last)
  ultimately show ?thesis unfolding p_def by blast
qed

theorem unpaired_coordinate_witness:
  "path_run (\<lambda>s. None) (path_tokens ''M1,2 l 5'') (Suc (Suc (Suc 0)))
     = Inr \<lparr>segments = [\<lparr>points = [(1, 2)], closed = False\<rparr>], cursor = (1, 2),
             start_point = Some (1, 2), tok_i = 4, command = Some ''l''\<rparr>
   \<and> path_tokens ''M1,2 l 5'' = [''M'', ''1'', ''2'', ''l'', ''5'']
   \<and> parse_path (\<lambda>s. None) ''M1,2 l 5'' = Inr [\<lparr>points = [(1, 2), (6, 2)], closed = False\<rparr>]
   \<and> (\<exists>segs. parse_path (\<lambda>s. None) ''M1,2 l 5'' = Inr segs \<and> last (points (last segs)) = (6, 2))
   \<and> path_run (\<lambda>s. None) (path_tokens ''M 5'') (Suc 0)
     = Inr \<lparr>segments = [], cursor = (0, 0), start_point = None, tok_i = 1, command = Some ''M''\<rparr>
   \<and> parse_path (\<lambda>s. None) ''M 5'' = Inr [\<lparr>points = [(5, 0)], closed = False\<rparr>]
   \<and> (\<exists>segs. parse_path (\<lambda>s. None) ''M 5'' = Inr segs \<and> last (points (last segs)) = (5, 0))"
proof -
  have t: "path_tokens ''M1,2 l 5'' = [''M'', ''1'', ''2'', ''l'', ''5'']"
    by (simp add: eval_defs path_eval_defs)
  have r: "path_run (\<lambda>s. None) (path_tokens ''M1,2 l 5'') (Suc (Suc (Suc 0)))
     = Inr \<lparr>segments = [\<lparr>points = [(1, 2)], closed = False\<rparr>], cursor = (1, 2),
             start_point = Some (1, 2), tok_i = 4, command = Some ''l''\<rparr>"
    unfolding t by (simp add: eval_defs path_eval_defs)
  have p: "parse_path (\<lambda>s. None) ''M1,2 l 5''
             = Inr [\<lparr>points = [(1, 2), (6, 2)], closed = False\<rparr>]"
    by (simp add: eval_defs path_eval_defs)
  have v: "parse_float (\<lambda>s. None) (Some ''5'') 0 = 5"
    by (simp add: eval_defs)
  have a: "\<exists>segs. parse_path (\<lambda>s. None) ''M1,2 l 5'' = Inr segs
             \<and> last (points (last segs)) = (6, 2)"
    using unpaired_coordinate [OF r, of "''l''"]
    by (simp add: t v is_command_token_def char_defs) blast
  have t2: "path_tokens ''M 5'' = [''M'', ''5'']"
    by (simp add: eval_defs path_eval_defs)
  have r2: "path_run (\<lambda>s. None) (path_tokens ''M 5'') (Suc 0)
     = Inr \<lparr>segments = [], cursor = (0, 0), start_point = None, tok_i = 1, command = Some ''M''\<rparr>"
    unfolding t2 by (simp add: eval_defs path_eval_defs)
  have p2: "parse_path (\<lambda>s. None) ''M 5'' = Inr [\<lparr>points = [(5, 0)], closed = False\<rparr>]"
    by (simp add: eval_defs path_eval_defs)
  have b: "\<exists>segs. parse_path (\<lambda>s. None) ''M 5'' = Inr segs
             \<and> last (points (last segs)) = (5, 0)"
    using unpaired_coordinate [OF r2, of "''M''"]
    by (simp add: t2 v is_command_token_def char_defs) blast
  from t r p a r2 p2 b show ?thesis by blast
qed

subsection \<open>The close command\<close>

text \<open>
  Claim C2. A \<^verbatim>\<open>Z\<close> or \<^verbatim>\<open>z\<close> marks the current segment closed, and
  \<^verbatim>\<open>M0,0 L10,0 L10,10 Z\<close> gives one closed segment of three points. In the source a
  letter token only becomes the current command, and the branch of \<^verbatim>\<open>Z\<close> that
  closes the segment runs when a number token is read under that command. The \<^verbatim>\<open>Z\<close>
  that ends the path data is followed by no token, so the loop ends with the segment
  open: the result has the three points and \<open>closed = False\<close>. The same data with a
  number behind the \<^verbatim>\<open>Z\<close> gives the closed segment.
\<close>

theorem close_command_at_end:
  "parse_path py_float ''M0,0 L10,0 L10,10 Z''
     = Inr [\<lparr>points = [(0, 0), (10, 0), (10, 10)], closed = False\<rparr>]
   \<and> parse_path py_float ''M0,0 L10,0 L10,10 Z 1''
     = Inr [\<lparr>points = [(0, 0), (10, 0), (10, 10)], closed = True\<rparr>]"
  by (simp add: eval_defs path_eval_defs)

section \<open>Failures\<close>

text \<open>Where a failure can come from: the path interpreter fails on a number token that
  no command precedes, the style resolver on an opacity that \<^verbatim>\<open>float\<close> rejects, and
  \<open>parse_svg\<close> wraps the failure of an extractor with the tag of the element.\<close>

lemma walk_failure_wrapped:
  "walk py_float els acc = Inl e \<Longrightarrow>
   \<exists>el exc. el \<in> set els \<and> SHAPE_PARSERS (local_tag el) \<noteq> None
            \<and> e = UnableToParse (local_tag el) exc"
proof (induction els arbitrary: acc)
  case Nil
  then show ?case by simp
next
  case (Cons el rest)
  show ?case
  proof (cases "SHAPE_PARSERS (local_tag el)")
    case None
    with Cons.prems have "walk py_float rest acc = Inl e" by simp
    from Cons.IH [OF this] show ?thesis by auto
  next
    case (Some parser)
    show ?thesis
    proof (cases "parser py_float el")
      case (Inl exc)
      with Some Cons.prems have "e = UnableToParse (local_tag el) exc" by simp
      with Some show ?thesis by auto
    next
      case (Inr shape)
      with Some Cons.prems have "walk py_float rest (acc @ [shape]) = Inl e" by simp
      from Cons.IH [OF this] show ?thesis by auto
    qed
  qed
qed

lemma parse_svg_failure_wrapped:
  assumes "parse_svg py_float root_el = Inl e"
  shows "\<exists>el exc. el \<in> set (iter root_el) \<and> SHAPE_PARSERS (local_tag el) \<noteq> None
            \<and> e = UnableToParse (local_tag el) exc"
proof -
  from assms have "walk py_float (iter root_el) [] = Inl e"
    by (simp add: parse_svg_def split: sum.splits)
  then show ?thesis by (rule walk_failure_wrapped)
qed

lemma path_step_failure:
  "path_step py_float tokens st = Inl e \<Longrightarrow> e = MissingCommand"
  by (simp add: path_step_def Let_def split: if_splits option.splits)

lemma extract_style_failure:
  "extract_style py_float element base_style = Inl e \<Longrightarrow>
   (\<exists>s. element_get element ''opacity'' (merge_style element ''opacity'') = Some s
        \<and> py_float s = None \<and> e = FloatError s)"
  by (simp add: extract_style_def Let_def split: option.splits sum.splits)

text \<open>
  Claim C1. Error propagation: the normalisers \<open>parse_float\<close> and \<open>parse_color\<close>
  never fail (they are total functions that return a parsed value or the default), and
  a failure of \<open>parse_svg\<close> is one wrapped error that names the tag of the offending
  element. The claim that only the path interpreter and the tree walk can fail does not
  hold of the source: the style resolver passes \<^verbatim>\<open>stroke-width\<close> through
  \<open>parse_float\<close>, but it converts \<^verbatim>\<open>opacity\<close> with \<^verbatim>\<open>float\<close> itself. On an opacity
  that \<^verbatim>\<open>float\<close> rejects, such as \<^verbatim>\<open>abc\<close>, the extractor of the element fails and
  \<open>parse_svg\<close> fails with the wrapped error, although no path is involved. The same
  text given as \<^verbatim>\<open>stroke-width\<close> falls back to the default \<open>1\<close>.
\<close>

theorem opacity_failure:
  "parse_svg py_float
     (Element ''svg'' Map.empty None None
        [Element ''rect'' [''opacity'' \<mapsto> ''abc''] None None []])
     = (case py_float ''abc'' of
          None \<Rightarrow> Inl (UnableToParse ''rect'' (FloatError ''abc''))
        | Some r \<Rightarrow>
            Inr \<lparr>width = None, height = None,
                 shapes = [Rect RECT \<lparr>fill_color = None, stroke_color = None,
                                       stroke_width = 1, opacity = r\<rparr> 0 0 0 0 0 0]\<rparr>)
   \<and> parse_svg py_float
       (Element ''svg'' Map.empty None None
          [Element ''rect'' [''stroke-width'' \<mapsto> ''abc''] None None []])
     = Inr \<lparr>width = None, height = None,
            shapes = [Rect RECT \<lparr>fill_color = None, stroke_color = None,
                                  stroke_width = (case py_float ''abc'' of
                                                    None \<Rightarrow> 1
                                                  | Some r \<Rightarrow> r),
                                  opacity = 1\<rparr> 0 0 0 0 0 0]\<rparr>"
  by (simp add: eval_defs shape_eval_defs split: option.split)

end
